theory Spec2Isabelle
  imports Complex_Main
begin

section \<open>ArtworksTable: paginated table with cross-page row selection\<close>

text \<open>
  A shallow embedding of \<^verbatim>\<open>src/components/Table.tsx\<close>. The component's React state
  is one record; every handler is a function from the state at the time of the render
  that created the handler to the state after it. JavaScript numbers are modelled as
  \<open>int\<close> (the component only stores integers in them), and an \<^verbatim>\<open>await\<close> is modelled
  as running to completion: no other handler runs in between.
\<close>

subsection \<open>Data model\<close>

text \<open>\<^verbatim>\<open>interface Artwork\<close>; the field \<^verbatim>\<open>id\<close> is called \<open>artwork_id\<close> here.\<close>

record Artwork =
  artwork_id :: int
  title :: string
  place_of_origin :: string
  artist_display :: string
  inscriptions :: string
  date_start :: int
  date_end :: int

text \<open>\<^verbatim>\<open>interface LazyState\<close>.\<close>

record LazyState =
  first :: int
  rows :: int
  page :: int

text \<open>The \<^verbatim>\<open>useState\<close> cells of \<^verbatim>\<open>ArtworksTable\<close>.\<close>

record table_state =
  artworks :: "Artwork list"
  loading :: bool
  totalRecords :: int
  lazyState :: LazyState
  selectedIds :: "int set"
  rowCountToSelect :: int

text \<open>
  One element of \<^verbatim>\<open>data.data\<close> in the endpoint's answer. Only \<^verbatim>\<open>inscriptions\<close> is
  inspected by the component (\<^verbatim>\<open>artwork.inscriptions || 'N/A'\<close>), so it alone may be
  absent.
\<close>

record api_artwork =
  api_id :: int
  api_title :: string
  api_place_of_origin :: string
  api_artist_display :: string
  api_inscriptions :: "string option"
  api_date_start :: int
  api_date_end :: int

text \<open>
  What \<^verbatim>\<open>fetch(...)\<close> followed by \<^verbatim>\<open>response.json()\<close> gives: either one of the two
  throws (\<open>TransportFailure\<close>), or a body arrives. In a body, \<^verbatim>\<open>data.data\<close> may be
  missing (then \<^verbatim>\<open>data.data.map\<close> throws) and \<^verbatim>\<open>data.pagination\<close> may be missing
  (then \<^verbatim>\<open>data.pagination.total\<close> throws).
\<close>

datatype response =
  TransportFailure
| Body "api_artwork list option" "int option"

text \<open>The remote endpoint: the answer to \<^verbatim>\<open>?page=p&limit=r\<close>.\<close>

type_synonym remote = "int \<Rightarrow> int \<Rightarrow> response"

text \<open>The argument of \<^verbatim>\<open>onPage\<close>: the fields of \<^verbatim>\<open>DataTablePageEvent\<close> it reads.\<close>

record page_event =
  event_first :: int
  event_rows :: int

subsection \<open>Initial state\<close>

definition initialState :: table_state where
  "initialState =
     \<lparr> artworks = [], loading = False, totalRecords = 0,
       lazyState = \<lparr> first = 0, rows = 10, page = 1 \<rparr>,
       selectedIds = {}, rowCountToSelect = 0 \<rparr>"

subsection \<open>fetchData\<close>

text \<open>The object literal built inside \<^verbatim>\<open>data.data.map\<close>.\<close>

definition toArtwork :: "api_artwork \<Rightarrow> Artwork" where
  "toArtwork a =
     \<lparr> artwork_id = api_id a,
       title = api_title a,
       place_of_origin = api_place_of_origin a,
       artist_display = api_artist_display a,
       inscriptions =
         (case api_inscriptions a of
            None \<Rightarrow> ''N/A''
          | Some t \<Rightarrow> (if t = [] then ''N/A'' else t)),
       date_start = api_date_start a,
       date_end = api_date_end a \<rparr>"

text \<open>
  \<^verbatim>\<open>fetchData(first, rows, page)\<close>: the returned records and the state after the call.
  \<^verbatim>\<open>setLoading(true)\<close> comes first, the \<^verbatim>\<open>catch\<close> branch returns the empty array, and
  the \<^verbatim>\<open>finally\<close> block runs \<^verbatim>\<open>setLoading(false)\<close> on every path.
  \<^verbatim>\<open>setTotalRecords\<close> is reached only when nothing has thrown before it.
\<close>

definition fetchData ::
  "remote \<Rightarrow> table_state \<Rightarrow> int \<Rightarrow> int \<Rightarrow> int \<Rightarrow> Artwork list \<times> table_state" where
  "fetchData remote s a_first a_rows a_page =
     (let s1 = s\<lparr>loading := True\<rparr> in
      case remote a_page a_rows of
        TransportFailure \<Rightarrow> ([], s1\<lparr>loading := False\<rparr>)
      | Body None p \<Rightarrow> ([], s1\<lparr>loading := False\<rparr>)
      | Body (Some raws) None \<Rightarrow> ([], s1\<lparr>loading := False\<rparr>)
      | Body (Some raws) (Some tot) \<Rightarrow>
          (map toArtwork raws, s1\<lparr>totalRecords := tot, loading := False\<rparr>))"

text \<open>The condition under which the \<^verbatim>\<open>try\<close> block of \<^verbatim>\<open>fetchData\<close> throws.\<close>

definition fetchFails :: "remote \<Rightarrow> int \<Rightarrow> int \<Rightarrow> bool" where
  "fetchFails remote a_page a_rows =
     (case remote a_page a_rows of
        TransportFailure \<Rightarrow> True
      | Body d p \<Rightarrow> d = None \<or> p = None)"

subsection \<open>Page change\<close>

text \<open>
  The \<^verbatim>\<open>useEffect\<close> on \<^verbatim>\<open>lazyState\<close>:
  \<^verbatim>\<open>fetchData(lazyState.first, lazyState.rows, lazyState.page).then(setArtworks)\<close>.
\<close>

definition pageEffect :: "remote \<Rightarrow> table_state \<Rightarrow> table_state" where
  "pageEffect remote s =
     (case fetchData remote s (first (lazyState s)) (rows (lazyState s)) (page (lazyState s)) of
        (records, s') \<Rightarrow> s'\<lparr>artworks := records\<rparr>)"

text \<open>
  \<^verbatim>\<open>onPage(event)\<close>. For \<^verbatim>\<open>event.rows = 0\<close> JavaScript computes
  \<^verbatim>\<open>Math.floor(event.first / 0) + 1\<close>, which is \<^verbatim>\<open>NaN\<close> or infinite and so not a
  page index of this model: the result is \<open>None\<close> there. For every other divisor
  \<^verbatim>\<open>Math.floor\<close> of the quotient is \<open>div\<close> on \<open>int\<close>.
\<close>

definition onPage :: "page_event \<Rightarrow> table_state \<Rightarrow> table_state option" where
  "onPage event s =
     (if event_rows event = 0 then None
      else Some (s\<lparr>lazyState :=
             (lazyState s)\<lparr> first := event_first event,
                            rows := event_rows event,
                            page := event_first event div event_rows event + 1 \<rparr>\<rparr>))"

text \<open>A page change as the user sees it: \<open>onPage\<close>, then the effect it triggers.\<close>

definition changePage :: "remote \<Rightarrow> page_event \<Rightarrow> table_state \<Rightarrow> table_state option" where
  "changePage remote event s = map_option (pageEffect remote) (onPage event s)"

subsection \<open>Selection\<close>

definition isSelected :: "table_state \<Rightarrow> int \<Rightarrow> bool" where
  "isSelected s i = (i \<in> selectedIds s)"

text \<open>\<^verbatim>\<open>selectedIds.size\<close>, shown as "Selected Artworks".\<close>

definition selectedCount :: "table_state \<Rightarrow> nat" where
  "selectedCount s = card (selectedIds s)"

text \<open>
  \<^verbatim>\<open>Math.ceil(totalRecords / rows)\<close> for a divisor other than zero, on integers.
\<close>

definition ceilDiv :: "int \<Rightarrow> int \<Rightarrow> int" where
  "ceilDiv tot a_rows = - ((- tot) div a_rows)"

text \<open>
  The \<^verbatim>\<open>break\<close> test \<^verbatim>\<open>currentPage > Math.ceil(totalRecords / lazyState.rows)\<close>.
  With \<^verbatim>\<open>rows = 0\<close> the quotient is \<^verbatim>\<open>Infinity\<close> (positive total), \<^verbatim>\<open>NaN\<close> (total 0)
  or \<^verbatim>\<open>-Infinity\<close> (negative total); the comparison is true only in the last case.
\<close>

definition pastLastPage :: "int \<Rightarrow> int \<Rightarrow> int \<Rightarrow> bool" where
  "pastLastPage currentPage tot a_rows =
     (if a_rows = 0 then tot < 0 else currentPage > ceilDiv tot a_rows)"

text \<open>
  One pass through the body of the \<^verbatim>\<open>while\<close> loop of \<^verbatim>\<open>onSelectRows\<close>, up to and
  including \<^verbatim>\<open>currentPage++\<close>. The handler's closure is \<open>s\<close>: \<^verbatim>\<open>artworks\<close>,
  \<^verbatim>\<open>lazyState\<close> and \<^verbatim>\<open>selectedIds\<close> (through \<^verbatim>\<open>isSelected\<close>) are read from it on every
  pass. The state \<open>st\<close> carries what the calls of \<open>fetchData\<close> have set so far.
\<close>

definition selectStep ::
  "remote \<Rightarrow> table_state \<Rightarrow> int \<Rightarrow> int \<Rightarrow> int set \<Rightarrow> table_state
     \<Rightarrow> int \<times> int \<times> int set \<times> table_state" where
  "selectStep remote s remainingToSelect currentPage updatedSelection st =
     (case (if currentPage = page (lazyState s) then (artworks s, st)
            else fetchData remote st 0 (rows (lazyState s)) currentPage) of
        (pageArtworks, st') \<Rightarrow>
          (let unselectedArtworks = filter (\<lambda>artwork. \<not> isSelected s (artwork_id artwork)) pageArtworks;
               rowsToSelect = take (nat remainingToSelect) unselectedArtworks
           in (remainingToSelect - int (length rowsToSelect),
               currentPage + 1,
               fold (\<lambda>artwork acc. insert (artwork_id artwork) acc) rowsToSelect updatedSelection,
               st')))"

text \<open>
  The \<^verbatim>\<open>while (remainingToSelect > 0)\<close> loop with its \<^verbatim>\<open>break\<close>. It need not end
  (with \<^verbatim>\<open>rows = 0\<close> the \<^verbatim>\<open>break\<close> may never fire), so not returning is \<open>None\<close>.
\<close>

partial_function (option) selectLoop ::
  "remote \<Rightarrow> table_state \<Rightarrow> int \<Rightarrow> int \<Rightarrow> int set \<Rightarrow> table_state
     \<Rightarrow> (int set \<times> table_state) option" where
  "selectLoop remote s remainingToSelect currentPage updatedSelection st =
     (if remainingToSelect > 0 then
        (case selectStep remote s remainingToSelect currentPage updatedSelection st of
           (remaining', page', selection', st') \<Rightarrow>
             if pastLastPage page' (totalRecords s) (rows (lazyState s))
             then Some (selection', st')
             else selectLoop remote s remaining' page' selection' st')
      else Some (updatedSelection, st))"

declare selectLoop.simps [code]

text \<open>\<^verbatim>\<open>onSelectRows\<close>: the loop, then \<^verbatim>\<open>setSelectedIds(updatedSelection)\<close>.\<close>

definition onSelectRows :: "remote \<Rightarrow> table_state \<Rightarrow> table_state option" where
  "onSelectRows remote s =
     (case selectLoop remote s (rowCountToSelect s) (page (lazyState s)) (selectedIds s) s of
        None \<Rightarrow> None
      | Some (updatedSelection, st) \<Rightarrow> Some (st\<lparr>selectedIds := updatedSelection\<rparr>))"

text \<open>\<^verbatim>\<open>onSelectAll(e)\<close> with \<^verbatim>\<open>e.checked\<close> as the first argument.\<close>

definition onSelectAll :: "bool \<Rightarrow> table_state \<Rightarrow> table_state" where
  "onSelectAll checked s =
     (if checked
      then s\<lparr>selectedIds :=
             fold (\<lambda>artwork acc. insert (artwork_id artwork) acc) (artworks s) (selectedIds s)\<rparr>
      else s\<lparr>selectedIds :=
             fold (\<lambda>artwork acc. acc - {artwork_id artwork}) (artworks s) (selectedIds s)\<rparr>)"

text \<open>The \<^verbatim>\<open>checked\<close> property of the header checkbox.\<close>

definition headerChecked :: "table_state \<Rightarrow> bool" where
  "headerChecked s =
     (length (artworks s) > 0 \<and> list_all (\<lambda>artwork. artwork_id artwork \<in> selectedIds s) (artworks s))"

text \<open>
  \<^verbatim>\<open>onSelectionChange\<close> of the table: the selection becomes the ids of the rows the
  table reports as selected.
\<close>

definition onSelectionChange :: "Artwork list \<Rightarrow> table_state \<Rightarrow> table_state" where
  "onSelectionChange val s = s\<lparr>selectedIds := set (map artwork_id val)\<rparr>"

text \<open>
  \<^verbatim>\<open>onValueChange\<close> of the number input: \<^verbatim>\<open>setRowCountToSelect(e.value)\<close>.
\<close>

definition setRowCountToSelect :: "int \<Rightarrow> table_state \<Rightarrow> table_state" where
  "setRowCountToSelect k s = s\<lparr>rowCountToSelect := k\<rparr>"

subsection \<open>Vocabulary for stating what a bulk selection does\<close>

text \<open>
  The records the loop of \<open>onSelectRows\<close> sees for page \<open>p\<close>: the displayed records
  for the current page, the result of \<open>fetchData\<close> for any other.
\<close>

definition pageRecords :: "remote \<Rightarrow> table_state \<Rightarrow> int \<Rightarrow> Artwork list" where
  "pageRecords remote s p =
     (if p = page (lazyState s) then artworks s
      else fst (fetchData remote s 0 (rows (lazyState s)) p))"

text \<open>Those of them whose id is not in \<open>selectedIds\<close> when the handler starts.\<close>

definition unselectedOn :: "remote \<Rightarrow> table_state \<Rightarrow> int \<Rightarrow> Artwork list" where
  "unselectedOn remote s p =
     filter (\<lambda>artwork. artwork_id artwork \<notin> selectedIds s) (pageRecords remote s p)"

definition lastPage :: "table_state \<Rightarrow> int" where
  "lastPage s = ceilDiv (totalRecords s) (rows (lazyState s))"

text \<open>
  The unselected records of page \<open>p\<close> and of every page after it up to the last one, in
  the order the loop meets them. Page \<open>p\<close> itself is always included.
\<close>

definition candidatesFrom :: "remote \<Rightarrow> table_state \<Rightarrow> int \<Rightarrow> Artwork list" where
  "candidatesFrom remote s p = concat (map (unselectedOn remote s) [p..max p (lastPage s)])"

text \<open>
  The whole collection as the endpoint serves it at the current page size, pages
  \<open>1\<close> to \<open>lastPage\<close>, and the number of its records that are not selected
  (the spec's "total unselected across the collection").
\<close>

definition wholeCollection :: "remote \<Rightarrow> table_state \<Rightarrow> Artwork list" where
  "wholeCollection remote s =
     concat (map (\<lambda>p. fst (fetchData remote s 0 (rows (lazyState s)) p)) [1..lastPage s])"

definition totalUnselectedAcrossCollection :: "remote \<Rightarrow> table_state \<Rightarrow> nat" where
  "totalUnselectedAcrossCollection remote s =
     length (filter (\<lambda>artwork. artwork_id artwork \<notin> selectedIds s) (wholeCollection remote s))"

subsection \<open>Sample endpoints and states\<close>

definition sampleArtwork :: "int \<Rightarrow> api_artwork" where
  "sampleArtwork i =
     \<lparr> api_id = i, api_title = ''Untitled'', api_place_of_origin = ''France'',
       api_artist_display = ''Unknown'', api_inscriptions = None,
       api_date_start = 1900, api_date_end = 1901 \<rparr>"

text \<open>An endpoint over \<open>n\<close> records with ids \<open>1..n\<close>, served in id order.\<close>

definition catalogue :: "int \<Rightarrow> remote" where
  "catalogue n p r =
     Body (Some (map sampleArtwork [(p - 1) * r + 1..min (p * r) n])) (Some n)"

text \<open>The same endpoint, except that every request for page \<open>q\<close> fails.\<close>

definition failingAt :: "int \<Rightarrow> remote \<Rightarrow> remote" where
  "failingAt q remote p r = (if p = q then TransportFailure else remote p r)"


text \<open>The component after its first render and fetch.\<close>

definition loaded :: "remote \<Rightarrow> table_state" where
  "loaded remote = pageEffect remote initialState"

text \<open>The component after a further page change to offset \<open>off\<close> at page size \<open>sz\<close>.\<close>

definition loadedAt :: "remote \<Rightarrow> int \<Rightarrow> int \<Rightarrow> table_state" where
  "loadedAt remote off sz =
     (case changePage remote \<lparr> event_first = off, event_rows = sz \<rparr> (loaded remote) of
        None \<Rightarrow> loaded remote
      | Some s \<Rightarrow> s)"

text \<open>The loaded component with \<open>k\<close> typed into the "Select Rows" input.\<close>

definition bulkRequest :: "remote \<Rightarrow> int \<Rightarrow> table_state" where
  "bulkRequest remote k = setRowCountToSelect k (loaded remote)"

text \<open>
  The loaded first page of a 50-record catalogue with rows 2, 5 and 7 ticked and 5
  typed into the "Select Rows" input.
\<close>

definition threeSelected :: table_state where
  "threeSelected =
     setRowCountToSelect 5
       (onSelectionChange
          (filter (\<lambda>artwork. artwork_id artwork \<in> {2, 5, 7}) (artworks (loaded (catalogue 50))))
          (loaded (catalogue 50)))"

section \<open>Properties\<close>

subsection \<open>Auxiliary facts\<close>

lemma ceilDiv_ceiling: "\<lceil>real_of_int t / real_of_int r\<rceil> = ceilDiv t r"
  by (simp add: ceilDiv_def ceiling_divide_eq_div)

lemma fold_insert_ids:
  "fold (\<lambda>artwork acc. insert (artwork_id artwork) acc) xs u = u \<union> artwork_id ` set xs"
  by (induction xs arbitrary: u) auto

lemma fold_remove_ids:
  "fold (\<lambda>artwork acc. acc - {artwork_id artwork}) xs u = u - artwork_id ` set xs"
  by (induction xs arbitrary: u) auto

lemma fetchData_records:
  "fst (fetchData remote st f r p) = fst (fetchData remote s f' r p)"
  by (simp add: fetchData_def Let_def split: response.splits option.splits)

lemma fetchData_state:
  "snd (fetchData remote s f r p) =
     (if fetchFails remote p r then s\<lparr>loading := False\<rparr>
      else s\<lparr>totalRecords := (case remote p r of Body d (Some n) \<Rightarrow> n), loading := False\<rparr>)"
  by (simp add: fetchData_def fetchFails_def Let_def split: response.splits option.splits)

lemma fetchData_fails: "fetchFails remote p r \<Longrightarrow> fst (fetchData remote s f r p) = []"
  by (auto simp: fetchData_def fetchFails_def Let_def split: response.splits option.splits)

lemma selectStep_char:
  "selectStep remote s r p u st =
     (r - int (length (take (nat r) (unselectedOn remote s p))),
      p + 1,
      u \<union> artwork_id ` set (take (nat r) (unselectedOn remote s p)),
      (if p = page (lazyState s) then st else snd (fetchData remote st 0 (rows (lazyState s)) p)))"
proof (cases "p = page (lazyState s)")
  case True
  then show ?thesis
    by (simp add: selectStep_def unselectedOn_def pageRecords_def isSelected_def
        fold_insert_ids Let_def)
next
  case False
  have "fst (fetchData remote st 0 (rows (lazyState s)) p) = pageRecords remote s p"
    using False by (simp add: pageRecords_def fetchData_records [of remote st 0 _ p s 0])
  then show ?thesis
    using False
    by (cases "fetchData remote st 0 (rows (lazyState s)) p")
      (simp add: selectStep_def unselectedOn_def isSelected_def fold_insert_ids Let_def)
qed

lemma candidatesFrom_last:
  "lastPage s < p + 1 \<Longrightarrow> candidatesFrom remote s p = unselectedOn remote s p"
  by (simp add: candidatesFrom_def max_def)

lemma candidatesFrom_next:
  "p + 1 \<le> lastPage s \<Longrightarrow>
   candidatesFrom remote s p = unselectedOn remote s p @ candidatesFrom remote s (p + 1)"
  by (simp add: candidatesFrom_def max_def upto_rec1 [of p])

lemma take_split_ids:
  "f ` set (take n xs) \<union> f ` set (take (nat (int n - int (length (take n xs)))) ys)
     = f ` set (take n (xs @ ys))"
proof (cases "length xs \<le> n")
  case True
  then show ?thesis by (simp add: image_Un nat_diff_distrib')
next
  case False
  then show ?thesis by (simp add: min_def)
qed

text \<open>
  The loop in closed form. With a page size other than zero it returns, and the
  selection it returns is the one it was given together with the ids of the first
  \<open>r\<close> candidates from page \<open>p\<close> on. The measure is the distance to the last page.
\<close>

lemma selectLoop_char:
  assumes rows: "rows (lazyState s) \<noteq> 0"
  shows "\<exists>st'. selectLoop remote s r p u st =
           Some (u \<union> artwork_id ` set (take (nat r) (candidatesFrom remote s p)), st')"
proof (induction "nat (lastPage s - p)" arbitrary: r p u st rule: less_induct)
  case less
  show ?case
  proof (cases "0 < r")
    case False
    then show ?thesis by (subst selectLoop.simps) simp
  next
    case pos: True
    let ?F = "unselectedOn remote s p"
    let ?u1 = "u \<union> artwork_id ` set (take (nat r) ?F)"
    let ?r1 = "r - int (length (take (nat r) ?F))"
    show ?thesis
    proof (cases "lastPage s < p + 1")
      case True
      then have "pastLastPage (p + 1) (totalRecords s) (rows (lazyState s))"
        using rows by (simp add: pastLastPage_def lastPage_def)
      then show ?thesis
        using pos True
        by (subst selectLoop.simps) (simp add: selectStep_char candidatesFrom_last)
    next
      case False
      then have np: "\<not> pastLastPage (p + 1) (totalRecords s) (rows (lazyState s))"
        using rows by (simp add: pastLastPage_def lastPage_def)
      have "nat (lastPage s - (p + 1)) < nat (lastPage s - p)"
        using False by simp
      from less [OF this]
      obtain st' where rec: "selectLoop remote s ?r1 (p + 1) ?u1
            (if p = page (lazyState s) then st else snd (fetchData remote st 0 (rows (lazyState s)) p)) =
          Some (?u1 \<union> artwork_id ` set (take (nat ?r1) (candidatesFrom remote s (p + 1))), st')"
        by blast
      have r: "r = int (nat r)" using pos by simp
      have "artwork_id ` set (take (nat r) ?F) \<union>
            artwork_id ` set (take (nat ?r1) (candidatesFrom remote s (p + 1)))
            = artwork_id ` set (take (nat r) (candidatesFrom remote s p))"
        using take_split_ids [of artwork_id "nat r" ?F "candidatesFrom remote s (p + 1)"]
          candidatesFrom_next [of p s remote] False r by simp
      then have "?u1 \<union> artwork_id ` set (take (nat ?r1) (candidatesFrom remote s (p + 1)))
            = u \<union> artwork_id ` set (take (nat r) (candidatesFrom remote s p))"
        by blast
      with rec np pos show ?thesis
        by (subst selectLoop.simps) (simp add: selectStep_char)
    qed
  qed
qed

lemma onSelectRows_char:
  assumes "rows (lazyState s) \<noteq> 0"
  shows "\<exists>s'. onSelectRows remote s = Some s' \<and>
           selectedIds s' =
             selectedIds s \<union>
             artwork_id ` set (take (nat (rowCountToSelect s))
                                (candidatesFrom remote s (page (lazyState s))))"
proof -
  from selectLoop_char [OF assms]
  obtain st' where "selectLoop remote s (rowCountToSelect s) (page (lazyState s)) (selectedIds s) s =
      Some (selectedIds s \<union> artwork_id ` set (take (nat (rowCountToSelect s))
              (candidatesFrom remote s (page (lazyState s)))), st')"
    by blast
  then show ?thesis by (simp add: onSelectRows_def)
qed

lemma candidates_unselected:
  "a \<in> set (candidatesFrom remote s p) \<Longrightarrow> artwork_id a \<notin> selectedIds s"
  by (auto simp: candidatesFrom_def unselectedOn_def)

lemma card_new_ids:
  assumes "finite S" "distinct (map f xs)" "\<forall>x\<in>set xs. f x \<notin> S"
  shows "card (S \<union> f ` set (take n xs)) = card S + min n (length xs)"
proof -
  have d: "distinct (map f (take n xs))"
    using assms(2) distinct_take [of "map f xs" n] by (simp add: take_map)
  have "card (f ` set (take n xs)) = length (take n xs)"
    using distinct_card [OF d] by simp
  moreover have "S \<inter> f ` set (take n xs) = {}"
    using assms(3) by (auto dest: in_set_takeD)
  ultimately show ?thesis
    using assms(1) by (simp add: card_Un_disjoint min.commute)
qed

lemma unselectedOn_fails:
  "q \<noteq> page (lazyState s) \<Longrightarrow> fetchFails remote q (rows (lazyState s)) \<Longrightarrow>
   unselectedOn remote s q = []"
  by (simp add: unselectedOn_def pageRecords_def fetchData_fails)

lemma take_min_length: "take (min n (length xs)) xs = take n xs"
  by (cases "n \<le> length xs") (simp_all add: min_def)

lemma ids_with_selected:
  "S \<union> f ` set (filter (\<lambda>x. f x \<notin> S) xs) = S \<union> f ` set xs"
  by auto

subsection \<open>The loading flag\<close>

text \<open>
  C9. After every call of \<open>fetchData\<close> the loading flag is false, whether the remote
  call succeeded, failed or answered with a malformed body; so it is after the effect
  that a page change triggers.
\<close>

theorem fetchData_clears_loading:
  "loading (snd (fetchData remote s a_first a_rows a_page)) = False \<and>
   loading (pageEffect remote s) = False"
  by (simp add: pageEffect_def fetchData_def Let_def split: response.splits option.splits)

subsection \<open>Page change\<close>

text \<open>
  C7. A page change with a page size other than zero leaves the selection set as it
  was, whatever the endpoint answers; no call of \<open>fetchData\<close> touches the selection.
\<close>

theorem page_change_keeps_selection:
  assumes "event_rows event \<noteq> 0"
  shows "(\<exists>s'. changePage remote event s = Some s' \<and> selectedIds s' = selectedIds s) \<and>
         selectedIds (snd (fetchData remote s a_first a_rows a_page)) = selectedIds s"
proof -
  have f: "selectedIds (snd (fetchData remote t a b c)) = selectedIds t" for t a b c
    by (simp add: fetchData_state)
  have "selectedIds (pageEffect remote t) = selectedIds t" for t
    using f [of t "first (lazyState t)" "rows (lazyState t)" "page (lazyState t)"]
    by (cases "fetchData remote t (first (lazyState t)) (rows (lazyState t)) (page (lazyState t))")
       (simp add: pageEffect_def)
  then show ?thesis
    using assms f by (simp add: changePage_def onPage_def)
qed

text \<open>
  C7, at a concrete input: with rows 2, 5 and 7 selected, the change to page 2 keeps
  exactly these three ids.
\<close>

theorem page_change_keeps_selection_witness:
  "event_rows \<lparr> event_first = 10, event_rows = 10 \<rparr> \<noteq> 0 \<and>
   selectedIds threeSelected = {2, 5, 7} \<and>
   map_option selectedIds
     (changePage (catalogue 50) \<lparr> event_first = 10, event_rows = 10 \<rparr> threeSelected)
     = Some {2, 5, 7}"
proof -
  have h: "event_rows \<lparr> event_first = 10, event_rows = (10::int) \<rparr> \<noteq> 0" by simp
  have e: "selectedIds threeSelected = {2, 5, 7}" by code_simp
  from page_change_keeps_selection [OF h, of "catalogue 50" threeSelected]
  obtain s' where "changePage (catalogue 50) \<lparr> event_first = 10, event_rows = 10 \<rparr> threeSelected = Some s'"
    "selectedIds s' = selectedIds threeSelected"
    by blast
  then have "map_option selectedIds
     (changePage (catalogue 50) \<lparr> event_first = 10, event_rows = 10 \<rparr> threeSelected)
     = Some {2, 5, 7}"
    using e by simp
  with h e show ?thesis by blast
qed

text \<open>
  C5, as stated, fails: after the first page of ten records is displayed, a change to
  page 2 whose fetch fails leaves the table with no records at all, not with the ten
  it displayed before.
\<close>

theorem page_change_failure_empties_table_counterexample:
  "fetchFails (failingAt 2 (catalogue 50)) 2 10 \<and>
   map artwork_id (artworks (loaded (failingAt 2 (catalogue 50)))) = [1..10] \<and>
   map_option artworks
     (changePage (failingAt 2 (catalogue 50)) \<lparr> event_first = 10, event_rows = 10 \<rparr>
        (loaded (failingAt 2 (catalogue 50)))) = Some []"
  by code_simp

text \<open>
  C5, amended. When the fetch of a page change fails, \<open>fetchData\<close> returns the empty
  sequence and the stored total stays as it was; the displayed records are replaced by
  the empty sequence and the loading flag is cleared. Nothing else changes.
\<close>

theorem failed_page_change:
  assumes "onPage event s = Some s1"
    and "fetchFails remote (page (lazyState s1)) (rows (lazyState s1))"
  shows "fst (fetchData remote s1 (first (lazyState s1)) (rows (lazyState s1)) (page (lazyState s1))) = [] \<and>
         changePage remote event s = Some (s1\<lparr>artworks := [], loading := False\<rparr>) \<and>
         totalRecords (s1\<lparr>artworks := [], loading := False\<rparr>) = totalRecords s"
proof -
  have f: "fst (fetchData remote s1 (first (lazyState s1)) (rows (lazyState s1)) (page (lazyState s1))) = []"
    using assms(2) by (rule fetchData_fails)
  have g: "snd (fetchData remote s1 (first (lazyState s1)) (rows (lazyState s1)) (page (lazyState s1)))
      = s1\<lparr>loading := False\<rparr>"
    using assms(2) by (simp add: fetchData_state)
  have "pageEffect remote s1 = s1\<lparr>artworks := [], loading := False\<rparr>"
    using f g
    by (cases "fetchData remote s1 (first (lazyState s1)) (rows (lazyState s1)) (page (lazyState s1))")
       (simp add: pageEffect_def)
  moreover have "totalRecords s1 = totalRecords s"
    using assms(1) by (auto simp: onPage_def split: if_splits)
  ultimately show ?thesis
    using f assms(1) by (simp add: changePage_def)
qed

text \<open>
  C5 amended, at a concrete input: the failing change to page 2 keeps the total 50.
\<close>

theorem failed_page_change_witness:
  "onPage \<lparr> event_first = 10, event_rows = 10 \<rparr> (loaded (failingAt 2 (catalogue 50)))
     = Some ((loaded (failingAt 2 (catalogue 50)))\<lparr>lazyState := \<lparr> first = 10, rows = 10, page = 2 \<rparr>\<rparr>) \<and>
   fetchFails (failingAt 2 (catalogue 50)) 2 10 \<and>
   map_option totalRecords
     (changePage (failingAt 2 (catalogue 50)) \<lparr> event_first = 10, event_rows = 10 \<rparr>
        (loaded (failingAt 2 (catalogue 50)))) = Some 50"
proof -
  let ?R = "failingAt 2 (catalogue 50)"
  let ?E = "\<lparr> event_first = 10, event_rows = 10 \<rparr>"
  let ?S1 = "(loaded ?R)\<lparr>lazyState := \<lparr> first = 10, rows = 10, page = 2 \<rparr>\<rparr>"
  have h1: "onPage ?E (loaded ?R) = Some ?S1" by (simp add: onPage_def)
  have h2: "fetchFails ?R 2 10" by code_simp
  then have h2': "fetchFails ?R (page (lazyState ?S1)) (rows (lazyState ?S1))" by simp
  have t: "totalRecords (loaded ?R) = 50" by code_simp
  from failed_page_change [OF h1 h2']
  have "changePage ?R ?E (loaded ?R) = Some (?S1\<lparr>artworks := [], loading := False\<rparr>)"
    and "totalRecords (?S1\<lparr>artworks := [], loading := False\<rparr>) = totalRecords (loaded ?R)"
    by blast+
  then have "map_option totalRecords (changePage ?R ?E (loaded ?R)) = Some 50"
    using t by simp
  with h1 h2 show ?thesis by blast
qed

subsection \<open>Select all on the page\<close>

text \<open>
  C4, as stated, fails: with record 1 selected and page 1 displayed, ticking the header
  checkbox and clearing it again leaves nothing selected.
\<close>

theorem select_all_round_trip_counterexample:
  "selectedIds ((loaded (catalogue 50))\<lparr>selectedIds := {1}\<rparr>) = {1} \<and>
   selectedIds (onSelectAll False (onSelectAll True ((loaded (catalogue 50))\<lparr>selectedIds := {1}\<rparr>))) = {}"
  by code_simp

text \<open>
  C4, amended. Select-all followed by deselect-all on the same page leaves the prior
  selection minus the ids of the visible records; when no visible record was selected
  before, the state is restored exactly.
\<close>

theorem select_all_then_deselect_all:
  "selectedIds (onSelectAll False (onSelectAll True s)) =
     selectedIds s - artwork_id ` set (artworks s) \<and>
   (selectedIds s \<inter> artwork_id ` set (artworks s) = {} \<longrightarrow>
      onSelectAll False (onSelectAll True s) = s)"
proof (intro conjI impI)
  show "selectedIds (onSelectAll False (onSelectAll True s)) =
     selectedIds s - artwork_id ` set (artworks s)"
    by (auto simp: onSelectAll_def fold_insert_ids fold_remove_ids)
next
  assume "selectedIds s \<inter> artwork_id ` set (artworks s) = {}"
  then have "selectedIds s \<union> artwork_id ` set (artworks s) - artwork_id ` set (artworks s)
      = selectedIds s"
    by blast
  then show "onSelectAll False (onSelectAll True s) = s"
    by (simp add: onSelectAll_def fold_insert_ids fold_remove_ids)
qed

text \<open>
  C4 amended, at a concrete input: nothing selected, page 1 displayed.
\<close>

theorem select_all_then_deselect_all_witness:
  "selectedIds (loaded (catalogue 50)) \<inter> artwork_id ` set (artworks (loaded (catalogue 50))) = {} \<and>
   onSelectAll False (onSelectAll True (loaded (catalogue 50))) = loaded (catalogue 50)"
proof -
  have h: "selectedIds (loaded (catalogue 50)) \<inter> artwork_id ` set (artworks (loaded (catalogue 50))) = {}"
    by code_simp
  with select_all_then_deselect_all [of "loaded (catalogue 50)"] show ?thesis by blast
qed

text \<open>
  C8, as stated, fails for an empty page: every visible record is selected (there is
  none), and the header checkbox is not checked.
\<close>

theorem empty_page_header_counterexample:
  "\<not> (headerChecked initialState \<longleftrightarrow>
        (\<forall>artwork \<in> set (artworks initialState). artwork_id artwork \<in> selectedIds initialState))"
  by (simp add: headerChecked_def initialState_def)

text \<open>
  C8, amended. The header checkbox is checked exactly when the page is not empty and
  the id of every visible record is selected.
\<close>

theorem header_checkbox_checked_iff:
  "headerChecked s \<longleftrightarrow>
     artworks s \<noteq> [] \<and> (\<forall>artwork \<in> set (artworks s). artwork_id artwork \<in> selectedIds s)"
  by (simp add: headerChecked_def list_all_iff)

text \<open>
  C8 amended, at a concrete input: page 1 after select-all.
\<close>

theorem header_checkbox_checked_iff_witness:
  "map artwork_id (artworks (onSelectAll True (loaded (catalogue 50)))) = [1..10] \<and>
   selectedIds (onSelectAll True (loaded (catalogue 50))) = set [1..10] \<and>
   headerChecked (onSelectAll True (loaded (catalogue 50)))"
proof -
  let ?S = "onSelectAll True (loaded (catalogue 50))"
  have a: "map artwork_id (artworks ?S) = [1..10]" by code_simp
  have b: "selectedIds ?S = set [1..10]" by code_simp
  have "artwork_id ` set (artworks ?S) = set [1..10]"
    using a by (simp only: set_map [symmetric])
  then have all: "\<forall>artwork \<in> set (artworks ?S). artwork_id artwork \<in> selectedIds ?S"
    using b by blast
  have ne: "artworks ?S \<noteq> []"
    using a by (auto simp: upto.simps)
  from header_checkbox_checked_iff [of ?S] ne all have "headerChecked ?S" by blast
  with a b show ?thesis by blast
qed

subsection \<open>Bulk selection\<close>

text \<open>
  C3. One pass of the loop over page \<open>p\<close> takes the first
  \<open>min remaining n\<close> of the \<open>n\<close> records of that page whose id is not in
  \<open>selectedIds\<close>, in page order, adds their ids and lowers the remaining count by
  that number. With page size 10, total 50, nothing selected, 15 requested from page 1
  and ten displayed records, the run selects the ten displayed records and the first
  five of page 2: 15 ids when these records have distinct ids.
\<close>

theorem bulk_select_page_order:
  "(case selectStep remote s remaining p u st of
      (remaining', p', u', st') \<Rightarrow>
        remaining' = remaining - int (min (nat remaining) (length (unselectedOn remote s p))) \<and>
        p' = p + 1 \<and>
        u' = u \<union> artwork_id ` set (take (min (nat remaining) (length (unselectedOn remote s p)))
                                     (unselectedOn remote s p))) \<and>
   (rows (lazyState s) = 10 \<and> page (lazyState s) = 1 \<and> totalRecords s = 50 \<and>
    selectedIds s = {} \<and> rowCountToSelect s = 15 \<and>
    length (artworks s) = 10 \<and> length (pageRecords remote s 2) = 10 \<and>
    distinct (map artwork_id (artworks s @ pageRecords remote s 2)) \<longrightarrow>
    (\<exists>s'. onSelectRows remote s = Some s' \<and>
       selectedIds s' =
         artwork_id ` set (artworks s) \<union> artwork_id ` set (take 5 (pageRecords remote s 2)) \<and>
       selectedCount s' = 15))"
proof (intro conjI impI)
  show "case selectStep remote s remaining p u st of
      (remaining', p', u', st') \<Rightarrow>
        remaining' = remaining - int (min (nat remaining) (length (unselectedOn remote s p))) \<and>
        p' = p + 1 \<and>
        u' = u \<union> artwork_id ` set (take (min (nat remaining) (length (unselectedOn remote s p)))
                                     (unselectedOn remote s p))"
    by (simp add: selectStep_char take_min_length min.commute)
next
  assume a: "rows (lazyState s) = 10 \<and> page (lazyState s) = 1 \<and> totalRecords s = 50 \<and>
    selectedIds s = {} \<and> rowCountToSelect s = 15 \<and>
    length (artworks s) = 10 \<and> length (pageRecords remote s 2) = 10 \<and>
    distinct (map artwork_id (artworks s @ pageRecords remote s 2))"
  have lp: "lastPage s = 5"
    using a by (simp add: lastPage_def ceilDiv_def)
  have u1: "unselectedOn remote s 1 = artworks s"
    using a by (simp add: unselectedOn_def pageRecords_def)
  have u2: "unselectedOn remote s 2 = pageRecords remote s 2"
    using a by (simp add: unselectedOn_def)
  have "candidatesFrom remote s 1 =
          artworks s @ pageRecords remote s 2 @ candidatesFrom remote s 3"
    using candidatesFrom_next [of 1 s remote] candidatesFrom_next [of 2 s remote] lp u1 u2
    by simp
  then have t: "take 15 (candidatesFrom remote s 1) = artworks s @ take 5 (pageRecords remote s 2)"
    using a by simp
  from onSelectRows_char [of s remote] a
  obtain s' where s': "onSelectRows remote s = Some s'"
    "selectedIds s' = selectedIds s \<union>
       artwork_id ` set (take (nat (rowCountToSelect s)) (candidatesFrom remote s (page (lazyState s))))"
    by auto
  have ids: "selectedIds s' =
      artwork_id ` set (artworks s) \<union> artwork_id ` set (take 5 (pageRecords remote s 2))"
    using s'(2) a t by (simp add: image_Un)
  have d: "distinct (map artwork_id (artworks s @ take 5 (pageRecords remote s 2)))"
    using a distinct_take [of "map artwork_id (pageRecords remote s 2)" 5]
    by (auto simp: take_map dest: in_set_takeD)
  have "selectedIds s' = set (map artwork_id (artworks s @ take 5 (pageRecords remote s 2)))"
    using ids by (simp add: image_Un)
  then have "card (selectedIds s') = length (map artwork_id (artworks s @ take 5 (pageRecords remote s 2)))"
    using distinct_card [OF d] by simp
  then have "selectedCount s' = 15"
    using a by (simp add: selectedCount_def)
  with s'(1) ids show "\<exists>s'. onSelectRows remote s = Some s' \<and>
       selectedIds s' =
         artwork_id ` set (artworks s) \<union> artwork_id ` set (take 5 (pageRecords remote s 2)) \<and>
       selectedCount s' = 15"
    by blast
qed

text \<open>
  C3, at a concrete input: a catalogue of 50 records, ids 1 to 15 get selected.
\<close>

theorem bulk_select_page_order_witness:
  "rows (lazyState (bulkRequest (catalogue 50) 15)) = 10 \<and>
   page (lazyState (bulkRequest (catalogue 50) 15)) = 1 \<and>
   totalRecords (bulkRequest (catalogue 50) 15) = 50 \<and>
   selectedIds (bulkRequest (catalogue 50) 15) = {} \<and>
   rowCountToSelect (bulkRequest (catalogue 50) 15) = 15 \<and>
   map artwork_id (artworks (bulkRequest (catalogue 50) 15)) = [1..10] \<and>
   map artwork_id (pageRecords (catalogue 50) (bulkRequest (catalogue 50) 15) 2) = [11..20] \<and>
   map_option selectedIds (onSelectRows (catalogue 50) (bulkRequest (catalogue 50) 15))
     = Some (set [1..15]) \<and>
   map_option selectedCount (onSelectRows (catalogue 50) (bulkRequest (catalogue 50) 15)) = Some 15"
proof -
  let ?R = "catalogue 50"
  let ?S = "bulkRequest ?R 15"
  have h1: "rows (lazyState ?S) = 10" by code_simp
  have h2: "page (lazyState ?S) = 1" by code_simp
  have h3: "totalRecords ?S = 50" by code_simp
  have h4: "selectedIds ?S = {}" by code_simp
  have h5: "rowCountToSelect ?S = 15" by code_simp
  have h6: "map artwork_id (artworks ?S) = [1..10]" by code_simp
  have h7: "map artwork_id (pageRecords ?R ?S 2) = [11..20]" by code_simp
  have l6: "length (artworks ?S) = 10" by code_simp
  have l7: "length (pageRecords ?R ?S 2) = 10" by code_simp
  have h8: "distinct (map artwork_id (artworks ?S @ pageRecords ?R ?S 2))" by code_simp
  have e: "map_option selectedIds (onSelectRows ?R ?S) = Some (set [1..15])" by code_simp
  from bulk_select_page_order [where remote = ?R and s = ?S] h1 h2 h3 h4 h5 l6 l7 h8
  obtain s' where "onSelectRows ?R ?S = Some s'" "selectedCount s' = 15"
    by blast
  then have "map_option selectedCount (onSelectRows ?R ?S) = Some 15" by simp
  with h1 h2 h3 h4 h5 h6 h7 e show ?thesis by blast
qed

text \<open>
  C1, as stated, fails: with 50 records, page size 10 and 25 requested from page 1, a
  failing fetch of page 3 does not stop the run. Page 4 is fetched next and gives the
  missing five records: 25 ids are selected, not 20.
\<close>

theorem failed_fetch_does_not_stop_counterexample:
  "fetchFails (failingAt 3 (catalogue 50)) 3 10 \<and>
   map_option selectedIds (onSelectRows (failingAt 3 (catalogue 50)) (bulkRequest (failingAt 3 (catalogue 50)) 25))
     = Some (set ([1..20] @ [31..35])) \<and>
   map_option selectedCount (onSelectRows (failingAt 3 (catalogue 50)) (bulkRequest (failingAt 3 (catalogue 50)) 25))
     = Some 25"
  by code_simp

text \<open>
  C1, amended. A fetch that fails inside the loop yields an empty page: nothing is
  selected from the failing page, nothing selected before is lost, and the run goes on
  with the pages after it, up to the last page, as if the failing page were empty.
\<close>

theorem failed_fetch_contributes_nothing:
  assumes "rows (lazyState s) \<noteq> 0"
    and "q \<noteq> page (lazyState s)"
    and "fetchFails remote q (rows (lazyState s))"
  shows "\<exists>s'. onSelectRows remote s = Some s' \<and>
           selectedIds s \<subseteq> selectedIds s' \<and>
           selectedIds s' =
             selectedIds s \<union>
             artwork_id ` set (take (nat (rowCountToSelect s))
               (concat (map (\<lambda>p. if p = q then [] else unselectedOn remote s p)
                  [page (lazyState s)..max (page (lazyState s)) (lastPage s)])))"
proof -
  have "(\<lambda>p. if p = q then [] else unselectedOn remote s p) = unselectedOn remote s"
    using unselectedOn_fails [OF assms(2,3)] by auto
  then have "concat (map (\<lambda>p. if p = q then [] else unselectedOn remote s p)
                  [page (lazyState s)..max (page (lazyState s)) (lastPage s)])
             = candidatesFrom remote s (page (lazyState s))"
    by (simp add: candidatesFrom_def)
  with onSelectRows_char [OF assms(1), of remote] show ?thesis
    by auto
qed

text \<open>
  C1 amended, at a concrete input: with 30 records the failing page 3 is the last
  page, and the run ends with the 20 records of pages 1 and 2.
\<close>

theorem failed_fetch_contributes_nothing_witness:
  "rows (lazyState (bulkRequest (failingAt 3 (catalogue 30)) 25)) \<noteq> 0 \<and>
   3 \<noteq> page (lazyState (bulkRequest (failingAt 3 (catalogue 30)) 25)) \<and>
   fetchFails (failingAt 3 (catalogue 30)) 3 (rows (lazyState (bulkRequest (failingAt 3 (catalogue 30)) 25))) \<and>
   selectedIds (bulkRequest (failingAt 3 (catalogue 30)) 25) \<subseteq>
     the (map_option selectedIds (onSelectRows (failingAt 3 (catalogue 30)) (bulkRequest (failingAt 3 (catalogue 30)) 25))) \<and>
   map_option selectedCount (onSelectRows (failingAt 3 (catalogue 30)) (bulkRequest (failingAt 3 (catalogue 30)) 25))
     = Some 20"
proof -
  let ?R = "failingAt 3 (catalogue 30)"
  let ?S = "bulkRequest ?R 25"
  have h1: "rows (lazyState ?S) \<noteq> 0" by code_simp
  have h2: "3 \<noteq> page (lazyState ?S)" by code_simp
  have h3: "fetchFails ?R 3 (rows (lazyState ?S))" by code_simp
  have c: "map_option selectedCount (onSelectRows ?R ?S) = Some 20" by code_simp
  from failed_fetch_contributes_nothing [OF h1 h2 h3]
  obtain s' where "onSelectRows ?R ?S = Some s'" "selectedIds ?S \<subseteq> selectedIds s'"
    by blast
  then have "selectedIds ?S \<subseteq> the (map_option selectedIds (onSelectRows ?R ?S))"
    by simp
  with h1 h2 h3 c show ?thesis by blast
qed

text \<open>
  C2, as stated, fails: with 20 records, page 2 displayed, nothing selected and 15
  requested, the 20 unselected records of the collection would allow 15, and the run
  selects the 10 records of page 2 only. Pages before the current one are never
  visited.
\<close>

theorem bulk_select_whole_collection_counterexample:
  "map_option selectedCount
     (onSelectRows (catalogue 20) (setRowCountToSelect 15 (loadedAt (catalogue 20) 10 10)))
   \<noteq> Some (selectedCount (setRowCountToSelect 15 (loadedAt (catalogue 20) 10 10)) +
           min (nat 15)
             (totalUnselectedAcrossCollection (catalogue 20)
                (setRowCountToSelect 15 (loadedAt (catalogue 20) 10 10))))"
  by code_simp

text \<open>
  C2, amended. A request of \<open>k \<le> 0\<close> leaves the state as it is. With a page size
  other than zero, and the unselected records from the current page to the last page
  carrying distinct ids, the run raises the cardinality of the selection by the
  minimum of \<open>k\<close> and the number of these records; selected records are not among
  them and so do not count against \<open>k\<close>.
\<close>

theorem bulk_select_cardinality:
  "(rowCountToSelect s \<le> 0 \<longrightarrow> onSelectRows remote s = Some s) \<and>
   (rows (lazyState s) \<noteq> 0 \<and> finite (selectedIds s) \<and>
    distinct (map artwork_id (candidatesFrom remote s (page (lazyState s)))) \<longrightarrow>
    (\<exists>s'. onSelectRows remote s = Some s' \<and>
       card (selectedIds s') =
         card (selectedIds s) +
         min (nat (rowCountToSelect s))
             (length (candidatesFrom remote s (page (lazyState s))))))"
proof (intro conjI impI)
  assume "rowCountToSelect s \<le> 0"
  then have "selectLoop remote s (rowCountToSelect s) (page (lazyState s)) (selectedIds s) s
      = Some (selectedIds s, s)"
    by (subst selectLoop.simps) simp
  then show "onSelectRows remote s = Some s"
    by (simp add: onSelectRows_def)
next
  assume a: "rows (lazyState s) \<noteq> 0 \<and> finite (selectedIds s) \<and>
    distinct (map artwork_id (candidatesFrom remote s (page (lazyState s))))"
  from onSelectRows_char [of s remote] a
  obtain s' where s': "onSelectRows remote s = Some s'"
    "selectedIds s' = selectedIds s \<union>
       artwork_id ` set (take (nat (rowCountToSelect s)) (candidatesFrom remote s (page (lazyState s))))"
    by blast
  have "card (selectedIds s') = card (selectedIds s) +
      min (nat (rowCountToSelect s)) (length (candidatesFrom remote s (page (lazyState s))))"
    unfolding s'(2) using a
    by (intro card_new_ids) (auto dest: candidates_unselected)
  with s'(1) show "\<exists>s'. onSelectRows remote s = Some s' \<and>
       card (selectedIds s') =
         card (selectedIds s) +
         min (nat (rowCountToSelect s))
             (length (candidatesFrom remote s (page (lazyState s))))"
    by blast
qed

text \<open>
  C2 amended, at concrete inputs: a request of 0 in the initial state changes nothing;
  with 3 of the 10 visible records selected, a request of 5 raises the count from 3
  to 8.
\<close>

theorem bulk_select_cardinality_witness:
  "rowCountToSelect initialState \<le> 0 \<and>
   onSelectRows (catalogue 50) initialState = Some initialState \<and>
   rows (lazyState threeSelected) \<noteq> 0 \<and> finite (selectedIds threeSelected) \<and>
   distinct (map artwork_id (candidatesFrom (catalogue 50) threeSelected (page (lazyState threeSelected)))) \<and>
   selectedCount threeSelected = 3 \<and>
   map_option selectedCount (onSelectRows (catalogue 50) threeSelected) = Some 8"
proof -
  have k: "rowCountToSelect initialState \<le> 0" by code_simp
  have h1: "rows (lazyState threeSelected) \<noteq> 0" by code_simp
  have h2: "finite (selectedIds threeSelected)"
    by (simp add: threeSelected_def onSelectionChange_def setRowCountToSelect_def)
  have h3: "distinct (map artwork_id (candidatesFrom (catalogue 50) threeSelected (page (lazyState threeSelected))))"
    by code_simp
  have c1: "selectedCount threeSelected = 3" by code_simp
  have c2: "length (candidatesFrom (catalogue 50) threeSelected (page (lazyState threeSelected))) = 47"
    by code_simp
  have c3: "rowCountToSelect threeSelected = 5" by code_simp
  from bulk_select_cardinality [of initialState "catalogue 50"] k
  have n: "onSelectRows (catalogue 50) initialState = Some initialState" by blast
  from bulk_select_cardinality [of threeSelected "catalogue 50"] h1 h2 h3
  obtain s' where "onSelectRows (catalogue 50) threeSelected = Some s'"
    "card (selectedIds s') = card (selectedIds threeSelected) +
         min (nat (rowCountToSelect threeSelected))
             (length (candidatesFrom (catalogue 50) threeSelected (page (lazyState threeSelected))))"
    by blast
  then have "map_option selectedCount (onSelectRows (catalogue 50) threeSelected) = Some 8"
    using c1 c2 c3 by (simp add: selectedCount_def)
  with k n h1 h2 h3 c1 show ?thesis by blast
qed

text \<open>
  C6, as stated, fails in its second half: with 50 records, page 3 displayed, nothing
  selected and 1000 requested, the run ends with the 30 records of pages 3 to 5
  selected, not with all 50.
\<close>

theorem bulk_select_exhaustion_counterexample:
  "selectedIds (setRowCountToSelect 1000 (loadedAt (catalogue 50) 20 10)) = {} \<and>
   map artwork_id (wholeCollection (catalogue 50) (setRowCountToSelect 1000 (loadedAt (catalogue 50) 20 10)))
     = [1..50] \<and>
   map_option selectedIds
     (onSelectRows (catalogue 50) (setRowCountToSelect 1000 (loadedAt (catalogue 50) 20 10)))
     = Some (set [21..50])"
  by code_simp

text \<open>
  C6, amended. With a page size other than zero the loop returns from every state, and
  so does \<open>onSelectRows\<close>. When the request is at least the number of unselected
  records from the current page to the last page, the run ends with every record of
  these pages selected.
\<close>

theorem bulk_select_terminates:
  assumes "rows (lazyState s) \<noteq> 0"
  shows "(\<exists>res. selectLoop remote s r p u st = Some res) \<and>
         (\<exists>s'. onSelectRows remote s = Some s' \<and>
            (int (length (candidatesFrom remote s (page (lazyState s)))) \<le> rowCountToSelect s \<longrightarrow>
             selectedIds s' =
               selectedIds s \<union>
               artwork_id ` set (concat (map (pageRecords remote s)
                   [page (lazyState s)..max (page (lazyState s)) (lastPage s)]))))"
proof
  show "\<exists>res. selectLoop remote s r p u st = Some res"
    using selectLoop_char [OF assms, of remote r p u st] by blast
next
  from onSelectRows_char [OF assms, of remote]
  obtain s' where s': "onSelectRows remote s = Some s'"
    "selectedIds s' = selectedIds s \<union>
       artwork_id ` set (take (nat (rowCountToSelect s)) (candidatesFrom remote s (page (lazyState s))))"
    by blast
  have c: "candidatesFrom remote s (page (lazyState s)) =
        filter (\<lambda>artwork. artwork_id artwork \<notin> selectedIds s)
          (concat (map (pageRecords remote s) [page (lazyState s)..max (page (lazyState s)) (lastPage s)]))"
  proof -
    have "unselectedOn remote s =
        (\<lambda>p. filter (\<lambda>artwork. artwork_id artwork \<notin> selectedIds s) (pageRecords remote s p))"
      by (rule ext) (simp add: unselectedOn_def)
    then show ?thesis
      by (simp add: candidatesFrom_def filter_concat comp_def)
  qed
  have "selectedIds s' = selectedIds s \<union>
               artwork_id ` set (concat (map (pageRecords remote s)
                   [page (lazyState s)..max (page (lazyState s)) (lastPage s)]))"
    if "int (length (candidatesFrom remote s (page (lazyState s)))) \<le> rowCountToSelect s"
  proof -
    from that have "take (nat (rowCountToSelect s)) (candidatesFrom remote s (page (lazyState s)))
        = candidatesFrom remote s (page (lazyState s))"
      by simp
    with s'(2) have "selectedIds s' =
        selectedIds s \<union> artwork_id ` set (candidatesFrom remote s (page (lazyState s)))"
      by (simp only:)
    also have "\<dots> = selectedIds s \<union> artwork_id ` set
        (filter (\<lambda>artwork. artwork_id artwork \<notin> selectedIds s)
          (concat (map (pageRecords remote s)
             [page (lazyState s)..max (page (lazyState s)) (lastPage s)])))"
      by (simp only: c)
    also have "\<dots> = selectedIds s \<union> artwork_id ` set
          (concat (map (pageRecords remote s)
             [page (lazyState s)..max (page (lazyState s)) (lastPage s)]))"
      by (rule ids_with_selected)
    finally show ?thesis .
  qed
  with s'(1) show "\<exists>s'. onSelectRows remote s = Some s' \<and>
            (int (length (candidatesFrom remote s (page (lazyState s)))) \<le> rowCountToSelect s \<longrightarrow>
             selectedIds s' =
               selectedIds s \<union>
               artwork_id ` set (concat (map (pageRecords remote s)
                   [page (lazyState s)..max (page (lazyState s)) (lastPage s)])))"
    by blast
qed

text \<open>
  C6 amended, at a concrete input: 1000 requested from page 1 of 50 records selects
  all 50.
\<close>

theorem bulk_select_terminates_witness:
  "rows (lazyState (bulkRequest (catalogue 50) 1000)) \<noteq> 0 \<and>
   int (length (candidatesFrom (catalogue 50) (bulkRequest (catalogue 50) 1000)
                  (page (lazyState (bulkRequest (catalogue 50) 1000))))) \<le> 1000 \<and>
   onSelectRows (catalogue 50) (bulkRequest (catalogue 50) 1000) \<noteq> None \<and>
   map_option selectedIds (onSelectRows (catalogue 50) (bulkRequest (catalogue 50) 1000))
     = Some (set [1..50])"
proof -
  let ?R = "catalogue 50"
  let ?S = "bulkRequest ?R 1000"
  have h1: "rows (lazyState ?S) \<noteq> 0" by code_simp
  have h2: "int (length (candidatesFrom ?R ?S (page (lazyState ?S)))) \<le> 1000" by code_simp
  have e: "map_option selectedIds (onSelectRows ?R ?S) = Some (set [1..50])" by code_simp
  from bulk_select_terminates [OF h1, where remote = ?R and r = 0 and p = 0 and u = "{}" and st = ?S]
  have "onSelectRows ?R ?S \<noteq> None" by auto
  with h1 h2 e show ?thesis by blast
qed



end
